theory Spec2Isabelle
  imports Complex_Main "HOL-Library.Char_ord" "HOL-Library.List_Lexorder"
begin

section \<open>Python values, exceptions and built-ins used by pymatgen/io/feff/inputs.py\<close>

text \<open>
  The module is Python. Exceptions are values of \<open>pyexn\<close> on the left of a sum.
  A Python float is modelled by the exact rational value of its decimal notation, plus the
  two infinities and NaN; rounding to the nearest double and overflow to infinity are not
  modelled. Strings are \<open>string\<close> (8-bit characters); the character classes below are
  Python 3's on ASCII, and a character above 127 is neither whitespace, digit nor letter.
\<close>

datatype pyexn = ValueError | KeyError | IndexError | OverflowError

datatype pyfloat = Fin rat | PosInf | NegInf | NaN

datatype pyval = PInt int | PFloat pyfloat | PBool bool | PStr string | PList "pyval list"

subsection \<open>Characters and strings\<close>

definition is_space :: "char \<Rightarrow> bool" where
  \<comment> \<open>\<open>str.isspace\<close> and the regular expression class \<open>\s\<close>\<close>
  "is_space c = (let n = (of_char c :: nat) in (9 \<le> n \<and> n \<le> 13) \<or> (28 \<le> n \<and> n \<le> 32))"

definition is_digit :: "char \<Rightarrow> bool" where
  \<comment> \<open>the regular expression class \<open>\d\<close>\<close>
  "is_digit c = (let n = (of_char c :: nat) in 48 \<le> n \<and> n \<le> 57)"

definition is_upper :: "char \<Rightarrow> bool" where
  "is_upper c = (let n = (of_char c :: nat) in 65 \<le> n \<and> n \<le> 90)"

definition is_lower :: "char \<Rightarrow> bool" where
  "is_lower c = (let n = (of_char c :: nat) in 97 \<le> n \<and> n \<le> 122)"

definition is_word :: "char \<Rightarrow> bool" where
  \<comment> \<open>the regular expression class \<open>\w\<close>; \<open>\W\<close> is its complement\<close>
  "is_word c = (is_digit c \<or> is_upper c \<or> is_lower c \<or> c = CHR ''_'')"

definition upper_char :: "char \<Rightarrow> char" where
  "upper_char c = (if is_lower c then char_of ((of_char c :: nat) - 32) else c)"

definition lower_char :: "char \<Rightarrow> char" where
  "lower_char c = (if is_upper c then char_of ((of_char c :: nat) + 32) else c)"

definition upper :: "string \<Rightarrow> string" where
  \<comment> \<open>\<open>str.upper\<close>\<close>
  "upper s = map upper_char s"

definition lower :: "string \<Rightarrow> string" where
  \<comment> \<open>\<open>str.lower\<close>\<close>
  "lower s = map lower_char s"

definition capitalize :: "string \<Rightarrow> string" where
  \<comment> \<open>\<open>str.capitalize\<close>: first character upper case, all others lower case\<close>
  "capitalize s = (case s of [] \<Rightarrow> [] | c # cs \<Rightarrow> upper_char c # map lower_char cs)"

definition strip :: "string \<Rightarrow> string" where
  \<comment> \<open>\<open>str.strip\<close> without argument\<close>
  "strip s = rev (dropWhile is_space (rev (dropWhile is_space s)))"

definition digit_val :: "char \<Rightarrow> nat" where
  "digit_val c = (of_char c :: nat) - 48"

definition nat_of_digits :: "string \<Rightarrow> nat" where
  "nat_of_digits s = foldl (\<lambda>a c. 10 * a + digit_val c) 0 s"

subsection \<open>Regular expressions of the module\<close>

text \<open>
  \<open>re.split("\s+", val)\<close>: the pieces of \<open>val\<close> between maximal runs of whitespace;
  a run at either end leaves an empty piece there, and the empty string gives one empty
  piece. The first argument collects the piece being read, in reverse.
\<close>

function re_split_ws :: "string \<Rightarrow> string \<Rightarrow> string list" where
  "re_split_ws cur [] = [rev cur]"
| "re_split_ws cur (c # cs) =
     (if is_space c then rev cur # re_split_ws [] (dropWhile is_space cs)
      else re_split_ws (c # cur) cs)"
  by pat_completeness auto
termination
  by (relation "measure (\<lambda>(cur, s). length s)")
     (auto simp: le_imp_less_Suc length_dropWhile_le)

text \<open>
  \<open>re.match("(\d+)\*([\d\.\-\+]+)", tok)\<close>: a maximal non-empty run of digits, a star,
  and a maximal non-empty run of digits, dots and signs, at the start of the token; what
  follows is not looked at. The result is the two groups.
\<close>

definition is_numch :: "char \<Rightarrow> bool" where
  "is_numch c = (is_digit c \<or> c = CHR ''.'' \<or> c = CHR ''-'' \<or> c = CHR ''+'')"

definition re_match_repeat :: "string \<Rightarrow> (string \<times> string) option" where
  "re_match_repeat tok =
     (let g1 = takeWhile is_digit tok; r = dropWhile is_digit tok
      in if g1 = [] then None
         else (case r of
                 [] \<Rightarrow> None
               | c # cs \<Rightarrow>
                   if c = CHR ''*'' \<and> takeWhile is_numch cs \<noteq> []
                   then Some (g1, takeWhile is_numch cs) else None))"

text \<open>
  \<open>re.search("^\W+([TtFf])", val)\<close>: one or more non-word characters at the start of
  the value, then one of the four letters; the result is that letter.
\<close>

definition re_search_bool :: "string \<Rightarrow> char option" where
  "re_search_bool val =
     (let w = takeWhile (\<lambda>c. \<not> is_word c) val; r = dropWhile (\<lambda>c. \<not> is_word c) val
      in if w = [] then None
         else (case r of
                 [] \<Rightarrow> None
               | c # cs \<Rightarrow> if c \<in> set ''TtFf'' then Some c else None))"

text \<open>
  \<open>re.sub(r"[^aA-zZ]+", "", s)\<close>: the class is \<open>a\<close>, the range \<open>A\<close> to \<open>z\<close>
  (codes 65 to 122, which holds six punctuation characters too) and \<open>Z\<close>; every
  character outside it is deleted.
\<close>

definition re_sub_nonalpha :: "string \<Rightarrow> string" where
  "re_sub_nonalpha s = filter (\<lambda>c. 65 \<le> (of_char c :: nat) \<and> (of_char c :: nat) \<le> 122) s"

subsection \<open>\<open>int()\<close> and \<open>float()\<close> on strings\<close>

text \<open>
  A digit part is a digit followed by digits, each optionally preceded by one underscore
  (Python 3.6 and later).
\<close>

fun digits_from :: "string \<Rightarrow> bool" where
  "digits_from [] = True"
| "digits_from (c # cs) =
     (if is_digit c then digits_from cs
      else if c = CHR ''_'' then (case cs of [] \<Rightarrow> False | d # ds \<Rightarrow> is_digit d \<and> digits_from ds)
      else False)"

definition is_digitpart :: "string \<Rightarrow> bool" where
  "is_digitpart s = (case s of [] \<Rightarrow> False | c # cs \<Rightarrow> is_digit c \<and> digits_from cs)"

definition digitpart_val :: "string \<Rightarrow> nat" where
  "digitpart_val s = nat_of_digits (filter is_digit s)"

definition split_sign :: "string \<Rightarrow> bool \<times> string" where
  \<comment> \<open>an optional sign: whether it is a minus, and the rest\<close>
  "split_sign s =
     (case s of
        [] \<Rightarrow> (False, [])
      | c # cs \<Rightarrow> if c = CHR ''-'' then (True, cs) else if c = CHR ''+'' then (False, cs) else (False, s))"

definition py_int :: "string \<Rightarrow> pyexn + int" where
  \<comment> \<open>\<open>int(s)\<close>, base ten\<close>
  "py_int s =
     (let (neg, r) = split_sign (strip s)
      in if is_digitpart r
         then Inr (if neg then - int (digitpart_val r) else int (digitpart_val r))
         else Inl ValueError)"

definition mantissa :: "string \<Rightarrow> (string \<times> string) option" where
  \<comment> \<open>\<open>[digitpart] "." digitpart | digitpart ["."]\<close>: the integer and the fraction digits\<close>
  "mantissa m =
     (let ip = takeWhile (\<lambda>c. c \<noteq> CHR ''.'') m; r = dropWhile (\<lambda>c. c \<noteq> CHR ''.'') m
      in case r of
           [] \<Rightarrow> if is_digitpart ip then Some (ip, []) else None
         | _ # fp \<Rightarrow>
             if fp = [] then (if is_digitpart ip then Some (ip, []) else None)
             else if (ip = [] \<or> is_digitpart ip) \<and> is_digitpart fp then Some (ip, fp)
             else None)"

definition exponent :: "string \<Rightarrow> int option" where
  \<comment> \<open>what follows the letter e: \<open>[sign] digitpart\<close>\<close>
  "exponent t =
     (let (neg, r) = split_sign t
      in if is_digitpart r
         then Some (if neg then - int (digitpart_val r) else int (digitpart_val r))
         else None)"

definition float_number :: "string \<Rightarrow> rat option" where
  \<comment> \<open>an unsigned decimal number with optional exponent, as its exact value\<close>
  "float_number r =
     (let is_e = (\<lambda>c. c = CHR ''e'' \<or> c = CHR ''E'');
          m = takeWhile (\<lambda>c. \<not> is_e c) r; x = dropWhile (\<lambda>c. \<not> is_e c) r
      in case mantissa m of
           None \<Rightarrow> None
         | Some (ip, fp) \<Rightarrow>
             (case (if x = [] then Some 0 else exponent (tl x)) of
                None \<Rightarrow> None
              | Some e \<Rightarrow>
                  Some (of_nat (digitpart_val (ip @ fp)) / 10 ^ length (filter is_digit fp)
                        * (if 0 \<le> e then 10 ^ nat e else 1 / 10 ^ nat (- e)))))"

definition py_float :: "string \<Rightarrow> pyexn + pyfloat" where
  \<comment> \<open>\<open>float(s)\<close>\<close>
  "py_float s =
     (let (neg, r) = split_sign (strip s)
      in if lower r = ''inf'' \<or> lower r = ''infinity'' then Inr (if neg then NegInf else PosInf)
         else if lower r = ''nan'' then Inr NaN
         else (case float_number r of
                 None \<Rightarrow> Inl ValueError
               | Some q \<Rightarrow> Inr (Fin (if neg then - q else q))))"

text \<open>
  \<open>xs * n\<close> on a list: a count above \<open>sys.maxsize\<close> (here that of a 64-bit build) does
  not fit the index type and raises OverflowError; a count that is not positive gives the
  empty list. Running out of memory below that bound is not modelled.
\<close>

definition maxsize :: int where
  "maxsize = 2 ^ 63 - 1"

definition list_repeat :: "'a list \<Rightarrow> int \<Rightarrow> pyexn + 'a list" where
  "list_repeat xs n =
     (if maxsize < n then Inl OverflowError else Inr (concat (replicate (nat n) xs)))"

section \<open>FeffTags\<close>

subsection \<open>The tag vocabulary\<close>

text \<open>
  The tuple VALID_FEFF_TAGS as the module writes it: PRINT, DANES and FPRIME occur twice,
  and the adjacent literals \<open>"FPRIME" "MDFF"\<close> are one string.
\<close>

definition VALID_FEFF_TAGS :: "string list" where
  "VALID_FEFF_TAGS =
     [''CONTROL'', ''PRINT'', ''ATOMS'', ''POTENTIALS'', ''RECIPROCAL'',
      ''REAL'', ''MARKER'', ''LATTICE'', ''TITLE'', ''RMULTIPLIER'',
      ''SGROUP'', ''COORDINATES'', ''EQUIVALENCE'', ''CIF'', ''CGRID'',
      ''CFAVERAGE'', ''OVERLAP'', ''EXAFS'', ''XANES'', ''ELNES'', ''EXELFS'',
      ''LDOS'', ''ELLIPTICITY'', ''MULTIPOLE'', ''POLARIZATION'',
      ''RHOZZP'', ''DANES'', ''FPRIME'', ''NRIXS'', ''XES'', ''XNCD'',
      ''XMCD'', ''XNCDCONTROL'', ''END'', ''KMESH'', ''PRINT'', ''EGRID'',
      ''DIMS'', ''AFOLP'', ''EDGE'', ''COMPTON'', ''DANES'',
      ''FPRIMEMDFF'', ''HOLE'', ''COREHOLE'', ''S02'', ''CHBROAD'',
      ''EXCHANGE'', ''FOLP'', ''NOHOLE'', ''RGRID'', ''SCF'',
      ''UNFREEZEF'', ''CHSHIFT'', ''DEBYE'',
      ''INTERSTITIAL'', ''CHWIDTH'', ''EGAP'', ''EPS0'', ''EXTPOT'',
      ''ION'', ''JUMPRM'', ''EXPOT'', ''SPIN'', ''LJMAX'', ''LDEC'', ''MPSE'',
      ''PLASMON'', ''RPHASES'', ''RSIGMA'', ''PMBSE'', ''TDLDA'', ''FMS'',
      ''DEBYA'', ''OPCONS'', ''PREP'', ''RESTART'', ''SCREEN'', ''SETE'',
      ''STRFACTORS'', ''BANDSTRUCTURE'', ''RPATH'', ''NLEG'', ''PCRITERIA'',
      ''SYMMETRY'', ''SS'', ''CRITERIA'', ''IORDER'', ''NSTAR'', ''ABSOLUTE'',
      ''CORRECTIONS'', ''SIG2'', ''SIG3'', ''MBCONV'', ''SFCONV'', ''RCONV'',
      ''SELF'', ''SFSE'', ''MAGIC'']"

subsection \<open>proc_val\<close>

definition list_type_keys :: "string list" where
  "list_type_keys = VALID_FEFF_TAGS"

definition boolean_type_keys :: "string list" where
  "boolean_type_keys = []"

definition float_type_keys :: "string list" where
  "float_type_keys = [''SCF'', ''EXCHANGE'', ''S02'', ''FMS'', ''XANES'', ''EXAFS'', ''RPATH'', ''LDOS'']"

definition int_type_keys :: "string list" where
  "int_type_keys = [''PRINT'', ''CONTROL'']"

definition smart_int_or_float :: "string \<Rightarrow> pyexn + pyval" where
  "smart_int_or_float numstr =
     (if CHR ''.'' \<in> set numstr \<or> CHR ''e'' \<in> set (lower numstr)
      then (case py_float numstr of Inl e \<Rightarrow> Inl e | Inr f \<Rightarrow> Inr (PFloat f))
      else (case py_int numstr of Inl e \<Rightarrow> Inl e | Inr i \<Rightarrow> Inr (PInt i)))"

text \<open>
  The loop over the tokens of a list-type value, with the list built so far. In
  \<open>[smart_int_or_float(m.group(2))] * int(m.group(1))\<close> the scalar is parsed first, then
  the count, then the list is repeated; the first exception ends the loop.
\<close>

fun list_loop :: "string list \<Rightarrow> pyval list \<Rightarrow> pyexn + pyval list" where
  "list_loop [] output = Inr output"
| "list_loop (tok # toks) output =
     (case re_match_repeat tok of
        Some (g1, g2) \<Rightarrow>
          (case smart_int_or_float g2 of
             Inl e \<Rightarrow> Inl e
           | Inr x \<Rightarrow>
               (case py_int g1 of
                  Inl e \<Rightarrow> Inl e
                | Inr n \<Rightarrow>
                    (case list_repeat [x] n of
                       Inl e \<Rightarrow> Inl e
                     | Inr ys \<Rightarrow> list_loop toks (output @ ys))))
      | None \<Rightarrow>
          (case smart_int_or_float tok of
             Inl e \<Rightarrow> Inl e
           | Inr x \<Rightarrow> list_loop toks (output @ [x])))"

text \<open>
  The body of the \<open>try\<close> block: \<open>Inr (Some v)\<close> is \<open>return v\<close>, \<open>Inr None\<close> is
  leaving the block with no class matched, \<open>Inl e\<close> is an exception raised inside it.
\<close>

definition proc_val_try :: "string \<Rightarrow> string \<Rightarrow> pyexn + pyval option" where
  "proc_val_try key val =
     (if key \<in> set list_type_keys
      then (case list_loop (re_split_ws [] val) [] of
              Inl e \<Rightarrow> Inl e
            | Inr output \<Rightarrow> Inr (Some (PList output)))
      else if key \<in> set boolean_type_keys
      then (case re_search_bool val of
              Some c \<Rightarrow> Inr (Some (PBool (c = CHR ''T'' \<or> c = CHR ''t'')))
            | None \<Rightarrow> Inl ValueError)
      else if key \<in> set float_type_keys
      then (case py_float val of Inl e \<Rightarrow> Inl e | Inr f \<Rightarrow> Inr (Some (PFloat f)))
      else if key \<in> set int_type_keys
      then (case py_int val of Inl e \<Rightarrow> Inl e | Inr i \<Rightarrow> Inr (Some (PInt i)))
      else Inr None)"

text \<open>
  \<open>except ValueError\<close> returns the capitalized text; so does falling out of the block.
  Any other exception leaves the function.
\<close>

definition proc_val :: "string \<Rightarrow> string \<Rightarrow> pyexn + pyval" where
  "proc_val key val =
     (case proc_val_try key val of
        Inl e \<Rightarrow> if e = ValueError then Inr (PStr (capitalize val)) else Inl e
      | Inr (Some v) \<Rightarrow> Inr v
      | Inr None \<Rightarrow> Inr (PStr (capitalize val)))"

subsection \<open>Comparison of values\<close>

text \<open>
  Python's \<open>==\<close> on the values a tag can hold: numbers (bool, int, float) compare by
  value across types, NaN equals nothing, a string equals only the same string, lists
  compare element by element. (Python first tests two list elements for identity; the model
  has no identity, so it differs from Python only on lists that hold NaN.) \<open>!=\<close> is the
  negation for these types.
\<close>

fun float_eq :: "pyfloat \<Rightarrow> pyfloat \<Rightarrow> bool" where
  "float_eq (Fin a) (Fin b) = (a = b)"
| "float_eq PosInf PosInf = True"
| "float_eq NegInf NegInf = True"
| "float_eq _ _ = False"

fun num_of :: "pyval \<Rightarrow> pyfloat option" where
  "num_of (PInt i) = Some (Fin (of_int i))"
| "num_of (PBool b) = Some (Fin (if b then 1 else 0))"
| "num_of (PFloat f) = Some f"
| "num_of (PStr s) = None"
| "num_of (PList xs) = None"

fun py_eq :: "pyval \<Rightarrow> pyval \<Rightarrow> bool" and py_eq_list :: "pyval list \<Rightarrow> pyval list \<Rightarrow> bool" where
  "py_eq (PList xs) (PList ys) = py_eq_list xs ys"
| "py_eq (PStr s) (PStr t) = (s = t)"
| "py_eq a b = (case (num_of a, num_of b) of (Some x, Some y) \<Rightarrow> float_eq x y | _ \<Rightarrow> False)"
| "py_eq_list [] [] = True"
| "py_eq_list (x # xs) (y # ys) = (py_eq x y \<and> py_eq_list xs ys)"
| "py_eq_list _ _ = False"

definition py_ne :: "pyval \<Rightarrow> pyval \<Rightarrow> bool" where
  "py_ne a b = (\<not> py_eq a b)"


subsection \<open>The store\<close>

text \<open>
  FeffTags is a dict subclass. A dict is an association list in insertion order with
  distinct keys: assignment to a present key replaces the value where it stands, assignment
  to a new key appends.
\<close>

type_synonym 'v dict = "(string \<times> 'v) list"

type_synonym store = "pyval dict"

definition is_dict :: "'v dict \<Rightarrow> bool" where
  "is_dict d = distinct (map fst d)"

definition dict_keys :: "'v dict \<Rightarrow> string set" where
  "dict_keys d = fst ` set d"

fun dict_set :: "'v dict \<Rightarrow> string \<Rightarrow> 'v \<Rightarrow> 'v dict" where
  "dict_set [] k v = [(k, v)]"
| "dict_set ((k', v') # d) k v = (if k' = k then (k, v) # d else (k', v') # dict_set d k v)"

definition dict_update :: "'v dict \<Rightarrow> 'v dict \<Rightarrow> 'v dict" where
  \<comment> \<open>\<open>dict.update\<close>, which does not go through \<open>__setitem__\<close>\<close>
  "dict_update d params = fold (\<lambda>(k, v) d. dict_set d k v) params d"

definition FeffTags_init :: "store \<Rightarrow> store" where
  \<comment> \<open>\<open>FeffTags(params)\<close>\<close>
  "FeffTags_init params = (if params \<noteq> [] then dict_update [] params else [])"

text \<open>
  \<open>__setitem__\<close>: the warnings issued, and the store after the assignment or the
  exception that left \<open>proc_val\<close>. A value that is a string is stripped and converted.
\<close>

definition setitem :: "store \<Rightarrow> string \<Rightarrow> pyval \<Rightarrow> string list \<times> (pyexn + store)" where
  "setitem self key val =
     (let warned = (if upper (strip key) \<notin> set VALID_FEFF_TAGS
                    then [strip key @ '' not in VALID_FEFF_TAGS list''] else [])
      in (warned,
          case (case val of PStr s \<Rightarrow> proc_val (strip key) (strip s) | _ \<Rightarrow> Inr val) of
            Inl e \<Rightarrow> Inl e
          | Inr v \<Rightarrow> Inr (dict_set self (strip key) v)))"

subsection \<open>diff\<close>





subsection \<open>__add__\<close>

fun add_loop :: "store \<Rightarrow> (string \<times> pyval) list \<Rightarrow> store \<Rightarrow> pyexn + store" where
  "add_loop self [] params = Inr params"
| "add_loop self ((k, v) # rest) params =
     (case map_of self k of
        Some v' \<Rightarrow> if py_ne v v' then Inl ValueError else add_loop self rest (dict_set params k v)
      | None \<Rightarrow> add_loop self rest (dict_set params k v))"

definition add :: "store \<Rightarrow> store \<Rightarrow> pyexn + store" where
  "add self other =
     (case add_loop self other (dict_update [] self) of
        Inl e \<Rightarrow> Inl e
      | Inr params \<Rightarrow> Inr (FeffTags_init params))"

section \<open>FeffAtoms\<close>

subsection \<open>Structures and number formatting\<close>

text \<open>
  What the module reads of a pymatgen Structure: whether it is ordered, and per site the
  symbol of its species, the species string (the symbol, with the oxidation state for an
  ion) and the cartesian coordinates. Coordinates and distances are rationals, and
  coordinate subtraction is exact.
\<close>

type_synonym point = "rat \<times> rat \<times> rat"

record site =
  specie_symbol :: string
  species_string :: string
  coords :: point

record Structure =
  is_ordered :: bool
  sites :: "site list"

text \<open>
  \<open>"{:f}".format(x)\<close>: the sign, the integer digits, a dot and six fraction digits of
  the magnitude rounded to a multiple of a millionth, a tie going to the even neighbour.
\<close>

definition round_half_even :: "rat \<Rightarrow> int" where
  "round_half_even q =
     (let f = \<lfloor>q\<rfloor>; r = q - of_int f
      in if r < 1 / 2 then f else if 1 / 2 < r then f + 1 else if even f then f else f + 1)"

definition digit_char :: "nat \<Rightarrow> char" where
  "digit_char d = char_of (48 + d)"

function str_nat :: "nat \<Rightarrow> string" where
  "str_nat n = (if n < 10 then [digit_char n] else str_nat (n div 10) @ [digit_char (n mod 10)])"
  by pat_completeness auto
termination
  by (relation "measure id") auto

definition format_f :: "rat \<Rightarrow> string" where
  "format_f q =
     (let n = nat (round_half_even (\<bar>q\<bar> * 1000000))
      in (if q < 0 then ''-'' else []) @ str_nat (n div 1000000) @ ''.'' @
         map (\<lambda>i. digit_char (n div 10 ^ i mod 10)) [5, 4, 3, 2, 1, 0])"

subsection \<open>The constructor\<close>

record FeffAtoms =
  central_atom :: string
  struct :: Structure
  site_symbols :: "string list"
  natoms :: "nat list"
  pot_dict :: "nat dict"

text \<open>\<open>itertools.groupby\<close>: each run of equal neighbours, with its length.\<close>

function groupby :: "'a list \<Rightarrow> ('a \<times> nat) list" where
  "groupby [] = []"
| "groupby (x # xs) =
     (x, Suc (length (takeWhile (\<lambda>y. y = x) xs))) # groupby (dropWhile (\<lambda>y. y = x) xs)"
  by pat_completeness auto
termination
  by (relation "measure length") (auto simp: le_imp_less_Suc length_dropWhile_le)

definition unique_pot_atoms :: "string list \<Rightarrow> string list" where
  \<comment> \<open>the symbols in order of first occurrence\<close>
  "unique_pot_atoms syms = fold (\<lambda>i u. if count_list u i = 0 then u @ [i] else u) syms []"

definition FeffAtoms_init :: "Structure \<Rightarrow> string \<Rightarrow> pyexn + FeffAtoms" where
  "FeffAtoms_init st central =
     (if is_ordered st
      then (let syms = map specie_symbol (sites st)
            in Inr \<lparr>central_atom = central, struct = st,
                    site_symbols = map fst (groupby syms),
                    natoms = map snd (groupby syms),
                    pot_dict = fold (\<lambda>(i, atom) d. dict_set d atom (i + 1))
                                 (enumerate 0 (unique_pot_atoms syms)) []\<rparr>)
      else Inl ValueError)"

subsection \<open>get_string\<close>

text \<open>
  A row of the table, in the order of its columns. \<open>Structure.get_sites_in_sphere\<close> is
  the structure library's neighbour search: it is a parameter here, giving the sites within
  the radius of a point, each with its distance.
\<close>

record row =
  r_x :: string
  r_y :: string
  r_z :: string
  r_ipot :: nat
  r_atom :: string
  r_distance :: string
  r_number :: nat

type_synonym neighbor_search = "Structure \<Rightarrow> point \<Rightarrow> rat \<Rightarrow> (site \<times> rat) list"

definition list_index :: "'a list \<Rightarrow> 'a \<Rightarrow> pyexn + nat" where
  \<comment> \<open>\<open>list.index\<close>: the position of the first occurrence\<close>
  "list_index xs x =
     (if x \<in> set xs then Inr (length (takeWhile (\<lambda>y. y \<noteq> x) xs)) else Inl ValueError)"

fun build_rows :: "nat dict \<Rightarrow> point \<Rightarrow> (nat \<times> site \<times> rat) list \<Rightarrow> row list \<Rightarrow> pyexn + row list" where
  "build_rows pd pt [] row = Inr row"
| "build_rows pd pt ((i, atom, distance) # rest) row =
     (let atm = re_sub_nonalpha (species_string atom)
      in case map_of pd atm of
           None \<Rightarrow> Inl KeyError
         | Some ipot \<Rightarrow>
             (case (pt, coords atom) of
                ((xshift, yshift, zshift), (cx, cy, cz)) \<Rightarrow>
                  build_rows pd pt rest
                    (row @ [\<lparr>r_x = format_f (cx - xshift), r_y = format_f (cy - yshift),
                             r_z = format_f (cz - zshift), r_ipot = ipot, r_atom = atm,
                             r_distance = format_f distance, r_number = i\<rparr>])))"

text \<open>
  The table \<open>row_sorted\<close> as it is handed to \<open>tabulate\<close>: the rows sorted on column 5,
  which holds the distance as text, then \<open>row_sorted[0][3] = 0\<close>, then the renumbering
  loop. The layout of the text by \<open>tabulate\<close> is not modelled.
\<close>

definition get_string_rows :: "neighbor_search \<Rightarrow> FeffAtoms \<Rightarrow> rat \<Rightarrow> pyexn + row list" where
  "get_string_rows get_sites_in_sphere self radius =
     (let ptatoms = map specie_symbol (sites (struct self))
      in case list_index ptatoms (central_atom self) of
           Inl e \<Rightarrow> Inl e
         | Inr index \<Rightarrow>
             (let pt = coords (sites (struct self) ! index);
                  sphere = get_sites_in_sphere (struct self) pt radius;
                  end = length sphere
              in case build_rows (pot_dict self) pt (enumerate 0 sphere) [] of
                   Inl e \<Rightarrow> Inl e
                 | Inr row \<Rightarrow>
                     (let row_sorted = sort_key r_distance row
                      in if row_sorted = [] then Inl IndexError
                         else Inr (fold (\<lambda>i rs. rs[i := (rs ! i)\<lparr>r_number := i\<rparr>]) [0..<end]
                                     (row_sorted[0 := (row_sorted ! 0)\<lparr>r_ipot := 0\<rparr>])))))"

text \<open>
  \<open>FeffAtoms(struct, central_atom).get_string(radius)\<close>, up to the table.
\<close>

definition atoms_table :: "neighbor_search \<Rightarrow> Structure \<Rightarrow> string \<Rightarrow> rat \<Rightarrow> pyexn + row list" where
  "atoms_table get_sites_in_sphere st central radius =
     (case FeffAtoms_init st central of
        Inl e \<Rightarrow> Inl e
      | Inr self \<Rightarrow> get_string_rows get_sites_in_sphere self radius)"

section \<open>Notions used in the statements\<close>

text \<open>
  What the list-capable class of \<open>proc_val\<close> produces for a value: the list of its
  scalars, or the capitalized text when a token is no number.
\<close>

definition list_class :: "string \<Rightarrow> pyexn + pyval" where
  "list_class val =
     (case list_loop (re_split_ws [] val) [] of
        Inl e \<Rightarrow> if e = ValueError then Inr (PStr (capitalize val)) else Inl e
      | Inr output \<Rightarrow> Inr (PList output))"

text \<open>The position of the absorbing atom: the first site of the central species.\<close>

definition center_point :: "Structure \<Rightarrow> string \<Rightarrow> point" where
  "center_point st central =
     coords (sites st ! length (takeWhile (\<lambda>y. y \<noteq> central) (map specie_symbol (sites st))))"

text \<open>The absorbing atom itself: the first site of the central species.\<close>

definition center_site :: "Structure \<Rightarrow> string \<Rightarrow> site" where
  "center_site st central =
     sites st ! length (takeWhile (\<lambda>y. y \<noteq> central) (map specie_symbol (sites st)))"

text \<open>
  The row that the loop of \<open>get_string\<close> appends for a site of the sphere, given the
  position of the centre, the potential index found for the site, its place in the
  neighbour answer and its distance.
\<close>

definition site_row :: "point \<Rightarrow> nat \<Rightarrow> nat \<Rightarrow> site \<Rightarrow> rat \<Rightarrow> row" where
  "site_row pt ipot i atom distance =
     (case (pt, coords atom) of
        ((xshift, yshift, zshift), (cx, cy, cz)) \<Rightarrow>
          \<lparr>r_x = format_f (cx - xshift), r_y = format_f (cy - yshift),
           r_z = format_f (cz - zshift), r_ipot = ipot,
           r_atom = re_sub_nonalpha (species_string atom),
           r_distance = format_f distance, r_number = i\<rparr>)"

text \<open>
  Modelled from the spec: \<open>Structure.get_sites_in_sphere\<close> is not part of the module.
  For the examples the search answers from a list of sites with their distances from the
  centre, and selects those whose distance is at most the radius (the cutoff is inclusive).
\<close>

definition sphere_of :: "(site \<times> rat) list \<Rightarrow> neighbor_search" where
  "sphere_of table st pt radius = filter (\<lambda>(s, d). d \<le> radius) table"

text \<open>
  The three-site example: a structure of one cobalt and two oxygen sites, at given
  positions.
\<close>

definition Co_at :: "point \<Rightarrow> site" where
  "Co_at p = \<lparr>specie_symbol = ''Co'', species_string = ''Co'', coords = p\<rparr>"

definition O_at :: "point \<Rightarrow> site" where
  "O_at p = \<lparr>specie_symbol = ''O'', species_string = ''O'', coords = p\<rparr>"

definition CoO2 :: "point \<Rightarrow> point \<Rightarrow> point \<Rightarrow> Structure" where
  "CoO2 pc p1 p2 = \<lparr>is_ordered = True, sites = [Co_at pc, O_at p1, O_at p2]\<rparr>"

section \<open>Properties\<close>

subsection \<open>Evaluation rules\<close>

lemmas char_defs = is_space_def is_digit_def is_upper_def is_lower_def is_word_def
  upper_char_def lower_char_def upper_def lower_def capitalize_def strip_def digit_val_def
  nat_of_digits_def is_numch_def char_of_eq_iff

lemmas parse_defs = re_match_repeat_def re_search_bool_def is_digitpart_def digitpart_val_def
  split_sign_def py_int_def mantissa_def exponent_def float_number_def py_float_def
  maxsize_def list_repeat_def smart_int_or_float_def

lemmas key_defs = list_type_keys_def boolean_type_keys_def float_type_keys_def int_type_keys_def
  VALID_FEFF_TAGS_def

lemmas proc_val_defs = proc_val_def proc_val_try_def

subsection \<open>proc_val: which exceptions can leave it\<close>











subsection \<open>proc_val: order of the classes\<close>

lemma classes_in_list_class:
  "key \<in> set boolean_type_keys \<union> set float_type_keys \<union> set int_type_keys
   \<Longrightarrow> key \<in> set list_type_keys"
  by (auto simp: key_defs)

lemma proc_val_list_class: "key \<in> set list_type_keys \<Longrightarrow> proc_val key val = list_class val"
  by (simp add: proc_val_def proc_val_try_def list_class_def split: sum.splits)

text \<open>
  C3. The list-capable check comes first: a key of the vocabulary gets the result of the
  list class. Every key of the boolean, float or integer class is in the vocabulary as
  well, so every key that belongs to more than one class gets the result of the list
  class, the earliest one that matches it.
\<close>

theorem proc_val_precedence:
  "(key \<in> set list_type_keys \<longrightarrow> proc_val key val = list_class val) \<and>
   (key \<in> set boolean_type_keys \<union> set float_type_keys \<union> set int_type_keys
      \<longrightarrow> key \<in> set list_type_keys \<and> proc_val key val = list_class val)"
  using proc_val_list_class classes_in_list_class by blast

theorem proc_val_precedence_witness:
  "''SCF'' \<in> set list_type_keys \<and>
   ''SCF'' \<in> set boolean_type_keys \<union> set float_type_keys \<union> set int_type_keys \<and>
   proc_val ''SCF'' ''7.5 2'' = list_class ''7.5 2''"
proof -
  have a: "''SCF'' \<in> set list_type_keys" by (simp add: key_defs)
  have b: "''SCF'' \<in> set boolean_type_keys \<union> set float_type_keys \<union> set int_type_keys"
    by (simp add: key_defs)
  from proc_val_precedence[of "''SCF''" "''7.5 2''"] a b show ?thesis by blast
qed

text \<open>
  C4, as amended. SCF is in the vocabulary, so the list class decides:
  \<open>proc_val("SCF", "7")\<close> is the one-element list \<open>[7]\<close>.
\<close>

theorem proc_val_SCF_7: "proc_val ''SCF'' ''7'' = Inr (PList [PInt 7])"
  by (simp add: proc_val_defs key_defs char_defs parse_defs)

text \<open>C4, as stated, fails: the result is not the integer 7.\<close>

theorem proc_val_SCF_7_counterexample: "proc_val ''SCF'' ''7'' \<noteq> Inr (PInt 7)"
  by (simp add: proc_val_defs key_defs char_defs parse_defs)

text \<open>
  C8. \<open>proc_val("EXAFS", "3*1.5 2.0")\<close> is the list \<open>[1.5, 1.5, 1.5, 2.0]\<close>.
\<close>

theorem proc_val_EXAFS_repeat:
  "proc_val ''EXAFS'' ''3*1.5 2.0'' =
     Inr (PList [PFloat (Fin (3 / 2)), PFloat (Fin (3 / 2)), PFloat (Fin (3 / 2)), PFloat (Fin 2)])"
  by (simp add: proc_val_defs key_defs char_defs parse_defs numeral_3_eq_3)

subsection \<open>Dicts\<close>

lemma map_of_dict_set: "map_of (dict_set d k v) = (map_of d)(k \<mapsto> v)"
  by (induction d) (auto simp: fun_eq_iff)

lemma keys_dict_set: "fst ` set (dict_set d k v) = insert k (fst ` set d)"
proof -
  have "set (map fst (dict_set d k v)) = insert k (set (map fst d))"
    by (induction d k v rule: dict_set.induct) (simp_all add: insert_commute)
  then show ?thesis by simp
qed

lemma is_dict_dict_set: "is_dict d \<Longrightarrow> is_dict (dict_set d k v)"
  unfolding is_dict_def
proof (induction d)
  case Nil
  then show ?case by simp
next
  case (Cons p d)
  obtain k' v' where p: "p = (k', v')" by (cases p)
  from Cons have "distinct (map fst (dict_set d k v))" by simp
  moreover have "fst ` set (dict_set d k v) = insert k (fst ` set d)" by (rule keys_dict_set)
  ultimately show ?case using Cons.prems p by auto
qed

lemma dict_set_new: "k \<notin> fst ` set d \<Longrightarrow> dict_set d k v = d @ [(k, v)]"
  by (induction d) auto

lemma fold_dict_set_append:
  "distinct (map fst xs) \<Longrightarrow> fst ` set xs \<inter> fst ` set d = {} \<Longrightarrow>
   fold (\<lambda>(k, v) d. dict_set d k v) xs d = d @ xs"
proof (induction xs arbitrary: d)
  case Nil
  then show ?case by simp
next
  case (Cons p xs)
  obtain k v where p: "p = (k, v)" by (cases p)
  have new: "k \<notin> fst ` set d" using Cons.prems(2) p by auto
  have "fst ` set xs \<inter> fst ` set (d @ [(k, v)]) = {}"
    using Cons.prems p by auto
  with Cons.IH[of "d @ [(k, v)]"] Cons.prems(1)
  have "fold (\<lambda>(k, v) d. dict_set d k v) xs (d @ [(k, v)]) = (d @ [(k, v)]) @ xs" by simp
  then show ?case using p new by (simp add: dict_set_new)
qed

lemma dict_update_empty: "is_dict d \<Longrightarrow> dict_update [] d = d"
  using fold_dict_set_append[of d "[]"] by (simp add: dict_update_def is_dict_def)

lemma FeffTags_init_id: "is_dict d \<Longrightarrow> FeffTags_init d = d"
  by (simp add: FeffTags_init_def dict_update_empty)



subsection \<open>diff\<close>






subsection \<open>__add__\<close>

lemma add_loop_conflict:
  assumes "\<exists>(k, w)\<in>set other. \<exists>v. map_of self k = Some v \<and> py_ne w v"
  shows "add_loop self other params = Inl ValueError"
  using assms
proof (induction other arbitrary: params)
  case Nil
  then show ?case by simp
next
  case (Cons p other)
  obtain k w where p: "p = (k, w)" by (cases p)
  show ?case
  proof (cases "\<exists>v. map_of self k = Some v \<and> py_ne w v")
    case True
    then show ?thesis by (auto simp: p)
  next
    case False
    with Cons.prems p have "\<exists>(k, w)\<in>set other. \<exists>v. map_of self k = Some v \<and> py_ne w v"
      by auto
    then have "add_loop self other (dict_set params k w) = Inl ValueError"
      by (rule Cons.IH)
    with False show ?thesis by (auto simp: p split: option.splits)
  qed
qed

lemma add_loop_ok:
  assumes "\<forall>(k, w)\<in>set other. \<forall>v. map_of self k = Some v \<longrightarrow> \<not> py_ne w v"
  shows "add_loop self other params = Inr (fold (\<lambda>(k, v) d. dict_set d k v) other params)"
  using assms
  by (induction other arbitrary: params) (auto split: option.splits)

lemma map_of_fold_dict_set:
  "map_of (fold (\<lambda>(k, v) d. dict_set d k v) xs d) = map_of d ++ map_of (rev xs)"
proof (induction xs arbitrary: d)
  case Nil
  then show ?case by simp
next
  case (Cons p xs)
  obtain k v where p: "p = (k, v)" by (cases p)
  show ?case
    by (simp add: p Cons.IH map_of_dict_set fun_eq_iff map_add_def split: option.splits)
qed

lemma is_dict_fold_dict_set:
  "is_dict d \<Longrightarrow> is_dict (fold (\<lambda>(k, v) d. dict_set d k v) xs d)"
  by (induction xs arbitrary: d) (auto simp: is_dict_dict_set)

lemma keys_fold_dict_set:
  "fst ` set (fold (\<lambda>(k, v) d. dict_set d k v) xs d) = fst ` set d \<union> fst ` set xs"
proof (induction xs arbitrary: d)
  case Nil
  then show ?case by simp
next
  case (Cons p xs)
  obtain k v where p: "p = (k, v)" by (cases p)
  have "fst ` set (fold (\<lambda>(k, v) d. dict_set d k v) xs (dict_set d k v))
          = insert k (fst ` set d) \<union> fst ` set xs"
    by (simp only: Cons.IH keys_dict_set)
  then show ?case by (simp add: p)
qed

lemma map_of_rev_distinct: "distinct (map fst xs) \<Longrightarrow> map_of (rev xs) = map_of xs"
  by (metis distinct_rev map_of_inject_set rev_map set_rev)

text \<open>
  C7. When every key of both stores holds equal values, \<open>A + B\<close> is a store with the
  keys of both, each key of \<open>B\<close> with its value in \<open>B\<close> and every other key of
  \<open>A\<close> with its value in \<open>A\<close>; when some key of both holds differing values,
  \<open>A + B\<close> raises ValueError.
\<close>

theorem add_merge:
  assumes "is_dict A" and "is_dict B"
  shows "((\<forall>k v w. map_of A k = Some v \<and> map_of B k = Some w \<longrightarrow> py_eq w v) \<longrightarrow>
            (\<exists>R. add A B = Inr R \<and> is_dict R \<and> dict_keys R = dict_keys A \<union> dict_keys B \<and>
                 map_of R = map_of A ++ map_of B)) \<and>
         ((\<exists>k v w. map_of A k = Some v \<and> map_of B k = Some w \<and> \<not> py_eq w v) \<longrightarrow>
            add A B = Inl ValueError)"
proof (intro conjI impI)
  let ?R = "fold (\<lambda>(k, v) d. dict_set d k v) B A"
  assume eq: "\<forall>k v w. map_of A k = Some v \<and> map_of B k = Some w \<longrightarrow> py_eq w v"
  have "\<forall>(k, w)\<in>set B. \<forall>v. map_of A k = Some v \<longrightarrow> \<not> py_ne w v"
    using eq assms(2) by (auto simp: py_ne_def is_dict_def)
  then have "add_loop A B A = Inr ?R" by (rule add_loop_ok)
  moreover have d: "is_dict ?R" using assms(1) by (rule is_dict_fold_dict_set)
  ultimately have "add A B = Inr ?R"
    using assms(1) by (simp add: add_def dict_update_empty FeffTags_init_id)
  moreover have "dict_keys ?R = dict_keys A \<union> dict_keys B"
    by (simp add: dict_keys_def keys_fold_dict_set)
  moreover have "map_of ?R = map_of A ++ map_of B"
    using assms(2) by (simp add: map_of_fold_dict_set map_of_rev_distinct is_dict_def)
  ultimately show "\<exists>R. add A B = Inr R \<and> is_dict R \<and> dict_keys R = dict_keys A \<union> dict_keys B \<and>
                 map_of R = map_of A ++ map_of B"
    using d by blast
next
  assume "\<exists>k v w. map_of A k = Some v \<and> map_of B k = Some w \<and> \<not> py_eq w v"
  then obtain k v w where "map_of A k = Some v" "map_of B k = Some w" "\<not> py_eq w v" by blast
  then have "\<exists>(k, w)\<in>set B. \<exists>v. map_of A k = Some v \<and> py_ne w v"
    by (auto simp: py_ne_def dest: map_of_SomeD)
  then have "add_loop A B A = Inl ValueError" by (rule add_loop_conflict)
  then show "add A B = Inl ValueError"
    using assms(1) by (simp add: add_def dict_update_empty)
qed


theorem add_merge_witness:
  "is_dict [(''SCF'', PList [PInt 7]), (''EDGE'', PStr ''K'')] \<and>
   is_dict [(''SCF'', PList [PFloat (Fin 7)]), (''S02'', PFloat (Fin 1))] \<and>
   is_dict [(''SCF'', PList [PInt 8])] \<and>
   (\<exists>R. add [(''SCF'', PList [PInt 7]), (''EDGE'', PStr ''K'')]
            [(''SCF'', PList [PFloat (Fin 7)]), (''S02'', PFloat (Fin 1))] = Inr R \<and>
        dict_keys R = {''SCF'', ''EDGE'', ''S02''} \<and>
        map_of R ''SCF'' = Some (PList [PFloat (Fin 7)]) \<and>
        map_of R ''EDGE'' = Some (PStr ''K'') \<and>
        map_of R ''S02'' = Some (PFloat (Fin 1))) \<and>
   add [(''SCF'', PList [PInt 7]), (''EDGE'', PStr ''K'')] [(''SCF'', PList [PInt 8])]
     = Inl ValueError"
proof -
  let ?A = "[(''SCF'', PList [PInt 7]), (''EDGE'', PStr ''K'')]"
  let ?B = "[(''SCF'', PList [PFloat (Fin 7)]), (''S02'', PFloat (Fin 1))]"
  let ?C = "[(''SCF'', PList [PInt 8])]"
  have a: "is_dict ?A" and b: "is_dict ?B" and c: "is_dict ?C"
    by (simp_all add: is_dict_def)
  have same: "\<forall>k v w. map_of ?A k = Some v \<and> map_of ?B k = Some w \<longrightarrow> py_eq w v"
    by (auto split: if_splits)
  have differ: "\<exists>k v w. map_of ?A k = Some v \<and> map_of ?C k = Some w \<and> \<not> py_eq w v"
    by (rule exI[of _ "''SCF''"]) simp
  from add_merge[OF a b] same obtain R where
    R: "add ?A ?B = Inr R" "dict_keys R = dict_keys ?A \<union> dict_keys ?B"
       "map_of R = map_of ?A ++ map_of ?B" by blast
  have "dict_keys R = {''SCF'', ''EDGE'', ''S02''}"
    unfolding R(2) by (auto simp: dict_keys_def)
  moreover have "map_of R ''SCF'' = Some (PList [PFloat (Fin 7)])"
    "map_of R ''EDGE'' = Some (PStr ''K'')" "map_of R ''S02'' = Some (PFloat (Fin 1))"
    unfolding R(3) by (simp_all add: map_add_def)
  moreover from add_merge[OF a c] differ have "add ?A ?C = Inl ValueError" by blast
  ultimately show ?thesis using a b c R(1) by blast
qed

subsection \<open>__setitem__\<close>

lemma strip_blank:
  assumes "\<forall>c\<in>set key. is_space c"
  shows "strip key = []"
proof -
  have d: "dropWhile is_space key = []" using assms by (induction key) simp_all
  show ?thesis unfolding strip_def d by simp
qed

lemma proc_val_no_class:
  "key \<notin> set list_type_keys \<Longrightarrow> key \<notin> set float_type_keys \<Longrightarrow> key \<notin> set int_type_keys
   \<Longrightarrow> proc_val key val = Inr (PStr (capitalize val))"
  by (simp add: proc_val_def proc_val_try_def boolean_type_keys_def)

lemma proc_val_empty_key: "proc_val [] val = Inr (PStr (capitalize val))"
  by (rule proc_val_no_class) (simp_all add: key_defs)

text \<open>
  C6, as amended. A name that is empty or all whitespace is not rejected: the assignment
  warns that the name is not in the vocabulary and stores the value under the empty
  string, a text value being stripped and capitalized on the way.
\<close>

theorem setitem_blank_name:
  assumes "\<forall>c\<in>set key. is_space c"
  shows "setitem self key val =
           ([ '' not in VALID_FEFF_TAGS list''],
            Inr (dict_set self [] (case val of PStr s \<Rightarrow> PStr (capitalize (strip s)) | _ \<Rightarrow> val)))"
proof -
  have k: "strip key = []" using assms by (rule strip_blank)
  have "upper [] \<notin> set VALID_FEFF_TAGS" by (simp add: upper_def VALID_FEFF_TAGS_def)
  then show ?thesis
    by (cases val) (simp_all add: setitem_def k proc_val_empty_key)
qed

theorem setitem_blank_name_witness:
  "list_all is_space ''  '' \<and>
   setitem [] ''  '' (PStr '' k edge '') =
     ([ '' not in VALID_FEFF_TAGS list''], Inr [([], PStr ''K edge'')])"
proof -
  have a: "\<forall>c\<in>set ''  ''. is_space c" by (simp add: is_space_def)
  from setitem_blank_name[OF a, of "[]" "PStr '' k edge ''"] a show ?thesis
    by (simp add: char_defs)
qed

text \<open>
  C6, as stated, fails: assigning under a name of two spaces succeeds, and the store then
  holds the empty name.
\<close>

theorem setitem_blank_name_counterexample:
  "snd (setitem [] ''  '' (PStr ''7'')) = Inr [([], PStr ''7'')]"
  by (simp add: setitem_def proc_val_defs key_defs char_defs)
section \<open>Properties of FeffAtoms\<close>

subsection \<open>Number formatting and text order\<close>

declare str_nat.simps [simp del]

lemma str_nat_small: "n < 10 \<Longrightarrow> str_nat n = [digit_char n]"
  by (simp add: str_nat.simps)

lemma str_nat_large: "10 \<le> n \<Longrightarrow> str_nat n = str_nat (n div 10) @ [digit_char (n mod 10)]"
  by (subst str_nat.simps) simp

lemmas format_defs = format_f_def round_half_even_def digit_char_def str_nat_small str_nat_large
  char_of_eq_iff Let_def

lemma format_f_zero: "format_f 0 = ''0.000000''"
  by (simp add: format_defs)

lemma of_char_digit_char: "d < 10 \<Longrightarrow> of_char (digit_char d) = 48 + d"
  by (simp add: digit_char_def)

lemma zero_le_digit_char: "d < 10 \<Longrightarrow> CHR ''0'' \<le> digit_char d"
  by (simp add: less_eq_char_def of_char_digit_char)

lemma zero_less_digit_char: "0 < d \<Longrightarrow> d < 10 \<Longrightarrow> CHR ''0'' < digit_char d"
  by (simp add: less_char_def of_char_digit_char)

lemma digit_char_zero: "digit_char 0 = CHR ''0''"
  by (simp add: digit_char_def char_of_eq_iff)

lemma str_nat_head:
  "\<exists>c cs. str_nat k = c # cs \<and> (if k = 0 then c = CHR ''0'' \<and> cs = [] else CHR ''0'' < c)"
proof (induction k rule: str_nat.induct)
  case (1 n)
  show ?case
  proof (cases "n < 10")
    case True
    then show ?thesis
      by (cases "n = 0") (simp_all add: str_nat_small digit_char_zero zero_less_digit_char)
  next
    case False
    then have "n div 10 \<noteq> 0" by simp
    with 1 False obtain c cs where "str_nat (n div 10) = c # cs" "CHR ''0'' < c" by auto
    with False show ?thesis by (simp add: str_nat_large)
  qed
qed

lemma zeros_least:
  "\<forall>c\<in>set ds. CHR ''0'' \<le> c \<Longrightarrow> replicate (length ds) (CHR ''0'') \<le> ds"
proof (induction ds)
  case Nil
  then show ?case by simp
next
  case (Cons c ds)
  then have "CHR ''0'' \<le> c" "replicate (length ds) (CHR ''0'') \<le> ds" by simp_all
  then show ?case by (auto simp: order.strict_iff_order)
qed

lemma format_f_least:
  assumes "0 \<le> q"
  shows "''0.000000'' \<le> format_f q"
proof -
  define n where "n = nat (round_half_even (\<bar>q\<bar> * 1000000))"
  define ds where "ds = map (\<lambda>i. digit_char (n div 10 ^ i mod 10)) [5, 4, 3, 2, 1, 0::nat]"
  have f: "format_f q = str_nat (n div 1000000) @ CHR ''.'' # ds"
    using assms by (simp add: format_f_def n_def ds_def Let_def)
  have "\<forall>c\<in>set ds. CHR ''0'' \<le> c"
    by (auto simp: ds_def intro!: zero_le_digit_char)
  moreover have "length ds = 6" by (simp add: ds_def)
  ultimately have z: "''000000'' \<le> ds"
    using zeros_least[of ds] by (simp add: eval_nat_numeral)
  obtain c cs where s: "str_nat (n div 1000000) = c # cs"
    and h: "if n div 1000000 = 0 then c = CHR ''0'' \<and> cs = [] else CHR ''0'' < c"
    using str_nat_head by blast
  show ?thesis
  proof (cases "n div 1000000 = 0")
    case True
    with h s f z show ?thesis by simp
  next
    case False
    with h s f show ?thesis by simp
  qed
qed

lemma sort_key_head_least:
  assumes "x \<in> set xs"
  shows "f (sort_key f xs ! 0) \<le> f x"
proof -
  have ne: "sort_key f xs \<noteq> []" using assms by (metis empty_iff empty_set set_sort)
  then obtain y ys where ys: "sort_key f xs = y # ys" by (cases "sort_key f xs") auto
  have "sorted (map f (sort_key f xs))" by simp
  then have "\<forall>z\<in>set ys. f y \<le> f z" by (simp add: ys)
  moreover have "x \<in> set (y # ys)" using assms ys by (metis set_sort)
  ultimately show ?thesis by (auto simp: ys)
qed

lemma renumber_fold:
  "n \<le> length rs \<Longrightarrow>
   fold (\<lambda>i rs. rs[i := (rs ! i)\<lparr>r_number := i\<rparr>]) [0..<n] rs =
     map (\<lambda>(i, r). if i < n then r\<lparr>r_number := i\<rparr> else r) (enumerate 0 rs)"
proof (induction n)
  case 0
  show ?case by (simp add: enumerate_eq_zip map_idI split_beta)
next
  case (Suc n)
  then have IH: "fold (\<lambda>i rs. rs[i := (rs ! i)\<lparr>r_number := i\<rparr>]) [0..<n] rs =
     map (\<lambda>(i, r). if i < n then r\<lparr>r_number := i\<rparr> else r) (enumerate 0 rs)" by simp
  from Suc.prems have n: "n < length rs" by simp
  show ?case
    apply (simp add: IH)
    apply (rule nth_equalityI)
    using n apply (auto simp: nth_enumerate_eq nth_list_update less_Suc_eq)
    done
qed

subsection \<open>The constructor and the rows\<close>

lemma set_unique_fold:
  "set (fold (\<lambda>i u. if count_list u i = 0 then u @ [i] else u) xs u) = set u \<union> set xs"
  by (induction xs arbitrary: u) (auto simp: count_list_0_iff)

lemma set_unique_pot_atoms: "set (unique_pot_atoms syms) = set syms"
  by (simp add: unique_pot_atoms_def set_unique_fold)

lemma fold_enumerate_dict:
  "fold (\<lambda>(i, atom) d. dict_set d atom (i + 1)) xs d =
   fold (\<lambda>(k, v) d. dict_set d k v) (map (\<lambda>(i, atom). (atom, i + 1)) xs) d"
  by (induction xs arbitrary: d) auto

lemma FeffAtoms_init_ordered:
  assumes "is_ordered st"
  shows "\<exists>self. FeffAtoms_init st central = Inr self \<and> struct self = st \<and>
           central_atom self = central \<and>
           fst ` set (pot_dict self) = set (map specie_symbol (sites st)) \<and>
           (\<forall>a n. map_of (pot_dict self) a = Some n \<longrightarrow> 1 \<le> n)"
proof -
  let ?u = "unique_pot_atoms (map specie_symbol (sites st))"
  let ?ys = "map (\<lambda>(i, atom). (atom, i + 1)) (enumerate 0 ?u)"
  let ?pd = "fold (\<lambda>(i, atom) d. dict_set d atom (i + 1)) (enumerate 0 ?u) []"
  have pd: "?pd = fold (\<lambda>(k, v) d. dict_set d k v) ?ys []" by (rule fold_enumerate_dict)
  have "map fst ?ys = map snd (enumerate 0 ?u)"
    by (simp add: split_beta comp_def)
  then have "set (map fst ?ys) = set ?u" by simp
  then have "fst ` set ?ys = set ?u" by (simp only: set_map)
  then have k: "fst ` set ?ys = set (map specie_symbol (sites st))"
    by (simp only: set_unique_pot_atoms)
  have "fst ` set ?pd = fst ` set ([] :: nat dict) \<union> fst ` set ?ys"
    unfolding pd by (rule keys_fold_dict_set)
  then have keys: "fst ` set ?pd = set (map specie_symbol (sites st))"
    unfolding k by simp
  have vals: "1 \<le> n" if "map_of ?pd a = Some n" for a n
  proof -
    have "map_of ?pd = map_of ([] :: nat dict) ++ map_of (rev ?ys)"
      unfolding pd by (rule map_of_fold_dict_set)
    with that have "map_of (rev ?ys) a = Some n" by simp
    then have "(a, n) \<in> set ?ys" by (auto dest: map_of_SomeD)
    then show ?thesis by auto
  qed
  show ?thesis
    using assms keys vals by (simp add: FeffAtoms_init_def Let_def)
qed

lemma center_point_site: "center_point st central = coords (center_site st central)"
  by (simp add: center_point_def center_site_def)

lemma sort_key_head_stable:
  assumes least: "\<forall>y\<in>set (pre @ x # post). f x \<le> f y"
    and first: "\<forall>y\<in>set pre. f y \<noteq> f x"
  shows "sort_key f (pre @ x # post) ! 0 = x"
proof -
  let ?xs = "pre @ x # post"
  have "sort_key f ?xs \<noteq> []" by (metis Nil_is_append_conv length_0_conv length_sort list.distinct(1))
  then obtain y ys where s: "sort_key f ?xs = y # ys" by (cases "sort_key f ?xs") auto
  have "y \<in> set ?xs" using s by (metis list.set_intros(1) set_sort)
  with least have "f x \<le> f y" by blast
  moreover have "f (sort_key f ?xs ! 0) \<le> f x" by (rule sort_key_head_least) simp
  ultimately have k: "f y = f x" using s by simp
  have "filter (\<lambda>z. f z = f x) (sort_key f ?xs) = filter (\<lambda>z. f z = f x) ?xs"
    by (rule sort_key_stable)
  moreover have "filter (\<lambda>z. f z = f x) pre = []" using first by (simp add: filter_empty_conv)
  ultimately have "y # filter (\<lambda>z. f z = f x) ys = x # filter (\<lambda>z. f z = f x) post"
    using k by (simp add: s)
  then show ?thesis by (simp add: s)
qed

lemma map_insort_key: "map f (insort_key f x xs) = insort (f x) (map f xs)"
  by (induction xs) simp_all

lemma map_sort_key: "map f (sort_key f xs) = sort (map f xs)"
  by (induction xs) (simp_all add: map_insort_key)

lemma build_rows_rows:
  assumes "\<forall>(i, s, d)\<in>set items. re_sub_nonalpha (species_string s) \<in> fst ` set pd"
  shows "\<exists>new. build_rows pd pt items row = Inr (row @ new) \<and>
           list_all2 (\<lambda>(i, s, d) r. \<exists>n. map_of pd (re_sub_nonalpha (species_string s)) = Some n \<and>
                                      r = site_row pt n i s d) items new"
  using assms
proof (induction items arbitrary: row)
  case Nil
  then show ?case by simp
next
  case (Cons it items)
  obtain i s d where it: "it = (i, s, d)" by (cases it)
  obtain xs ys zs where pt: "pt = (xs, ys, zs)" by (cases pt)
  obtain cx cy cz where cs: "coords s = (cx, cy, cz)" by (cases "coords s")
  let ?atm = "re_sub_nonalpha (species_string s)"
  let ?R = "\<lambda>(i, s, d) r. \<exists>n. map_of pd (re_sub_nonalpha (species_string s)) = Some n \<and>
                                      r = site_row pt n i s d"
  from Cons.prems it have "?atm \<in> fst ` set pd" by simp
  then obtain n where n: "map_of pd ?atm = Some n"
    by (metis domIff dom_map_of_conv_image_fst not_Some_eq)
  from Cons.prems have "\<forall>(i, s, d)\<in>set items. re_sub_nonalpha (species_string s) \<in> fst ` set pd"
    by simp
  from Cons.IH[OF this, of "row @ [site_row pt n i s d]"] obtain new where
    new: "build_rows pd pt items (row @ [site_row pt n i s d]) = Inr ((row @ [site_row pt n i s d]) @ new)"
      "list_all2 ?R items new" by blast
  have "build_rows pd pt (it # items) row = Inr (row @ (site_row pt n i s d # new))"
    using new(1) by (simp add: it pt cs n site_row_def)
  moreover have "list_all2 ?R (it # items) (site_row pt n i s d # new)"
    using new(2) n by (simp add: it)
  ultimately show ?case by blast
qed

lemma site_row_fields:
  "r_ipot (site_row pt n i s d) = n" "r_distance (site_row pt n i s d) = format_f d"
  "r_number (site_row pt n i s d) = i"
  "r_atom (site_row pt n i s d) = re_sub_nonalpha (species_string s)"
  by (simp_all add: site_row_def split: prod.splits)

lemma site_row_update:
  "(site_row pt n i s d)\<lparr>r_ipot := m, r_number := j\<rparr> = site_row pt m j s d"
  by (simp add: site_row_def split: prod.splits)

subsection \<open>The table\<close>

lemma renumber_all:
  "fold (\<lambda>i rs. rs[i := (rs ! i)\<lparr>r_number := i\<rparr>]) [0..<length rs] rs =
     map (\<lambda>(i, r). r\<lparr>r_number := i\<rparr>) (enumerate 0 rs)"
proof -
  have "map (\<lambda>(i, r). if i < length rs then r\<lparr>r_number := i\<rparr> else r) (enumerate 0 rs) =
        map (\<lambda>(i, r). r\<lparr>r_number := i\<rparr>) (enumerate 0 rs)"
    by (rule map_cong) (auto simp: in_set_enumerate_eq)
  then show ?thesis using renumber_fold[of "length rs" rs] by simp
qed

lemma enumerate_member: "(i, x) \<in> set (enumerate n xs) \<Longrightarrow> x \<in> set xs"
proof -
  assume "(i, x) \<in> set (enumerate n xs)"
  then have "i - n < length xs" "xs ! (i - n) = x"
    by (auto simp: in_set_enumerate_eq)
  then show ?thesis using nth_mem by blast
qed

lemma renumbered_numbers:
  "map r_number (map (\<lambda>(i, r). r\<lparr>r_number := i\<rparr>) (enumerate n rs)) = [n..<n + length rs]"
  by (induction rs arbitrary: n) (simp_all add: upt_conv_Cons del: upt_Suc)

lemma map_enumerate_distance:
  "map (\<lambda>(i, s, d). f d) (enumerate n xs) = map (\<lambda>(s, d). f d) xs"
  by (induction xs arbitrary: n) auto

lemma related_rows:
  assumes "list_all2 (\<lambda>(i, s, d) r. \<exists>n. map_of pd (re_sub_nonalpha (species_string s)) = Some n \<and>
                                      r = site_row pt n i s d) items new"
  shows "map r_distance new = map (\<lambda>(i, s, d). format_f d) items \<and>
         (\<forall>r\<in>set new. \<exists>n. map_of pd (r_atom r) = Some n \<and> r_ipot r = n)"
  using assms
  by (induction items new rule: list_all2_induct) (auto simp: site_row_fields)

lemma renumbered_distances:
  "map r_distance (map (\<lambda>(i, r). r\<lparr>r_number := i\<rparr>) (enumerate n rs)) = map r_distance rs"
  by (induction rs arbitrary: n) simp_all

text \<open>
  C1, as amended. For an ordered structure with a site of the central species, and a
  neighbour search whose answer holds the centre at distance 0 among sites of the structure
  at non-negative distances, \<open>get_string\<close> builds a table with one row per selected
  site, whose distance column holds the formatted distances of the selected sites; row 0
  has potential index 0 and distance 0.000000, no other row has potential index 0, and
  the last column counts 0, 1, ..., N-1. Row 0 is the row of the centre itself whenever no
  site that the answer lists before the centre has a distance that prints as 0.000000.
\<close>

theorem shell_table_invariant:
  assumes ord: "is_ordered st"
    and cen: "central \<in> set (map specie_symbol (sites st))"
    and sph: "get_sites_in_sphere st (center_point st central) radius =
                pre @ (center_site st central, 0) # post"
    and known: "\<forall>(s, d)\<in>set (pre @ (center_site st central, 0) # post).
                  0 \<le> d \<and> re_sub_nonalpha (species_string s) \<in> set (map specie_symbol (sites st))"
  shows "\<exists>rows. atoms_table get_sites_in_sphere st central radius = Inr rows \<and>
           length rows = length pre + 1 + length post \<and>
           r_ipot (rows ! 0) = 0 \<and> r_distance (rows ! 0) = ''0.000000'' \<and>
           length (filter (\<lambda>r. r_ipot r = 0) rows) = 1 \<and>
           map r_number rows = [0..<length rows] \<and>
           sort (map r_distance rows) =
             sort (map (\<lambda>(s, d). format_f d) (pre @ (center_site st central, 0) # post)) \<and>
           ((\<forall>(s, d)\<in>set pre. format_f d \<noteq> ''0.000000'') \<longrightarrow>
              rows ! 0 = site_row (center_point st central) 0 0 (center_site st central) 0)"
proof -
  let ?c = "center_site st central"
  let ?pt = "center_point st central"
  let ?sphere = "pre @ (?c, 0) # post"
  from FeffAtoms_init_ordered[OF ord, of central] obtain self where
    init: "FeffAtoms_init st central = Inr self" and st: "struct self = st"
    and ca: "central_atom self = central"
    and keys: "fst ` set (pot_dict self) = set (map specie_symbol (sites st))"
    and vals: "\<And>a n. map_of (pot_dict self) a = Some n \<Longrightarrow> 1 \<le> n" by blast
  let ?R = "\<lambda>(i, s, d) r. \<exists>n. map_of (pot_dict self) (re_sub_nonalpha (species_string s)) = Some n \<and>
                                      r = site_row ?pt n i s d"
  let ?items = "enumerate 0 ?sphere"
  have items: "?items = enumerate 0 pre @ (length pre, ?c, 0) # enumerate (Suc (length pre)) post"
    by (simp add: enumerate_append_eq)
  have "\<forall>(i, s, d)\<in>set ?items. re_sub_nonalpha (species_string s) \<in> fst ` set (pot_dict self)"
  proof (clarify)
    fix i s d assume "(i, s, d) \<in> set ?items"
    then have "(s, d) \<in> set ?sphere" by (rule enumerate_member)
    with known show "re_sub_nonalpha (species_string s) \<in> fst ` set (pot_dict self)"
      unfolding keys by blast
  qed
  from build_rows_rows[OF this, of ?pt "[]"] obtain new where
    built: "build_rows (pot_dict self) ?pt ?items [] = Inr new"
    and rel: "list_all2 ?R ?items new" by auto
  from rel obtain npre x npost where new: "new = npre @ x # npost"
    and rel_pre: "list_all2 ?R (enumerate 0 pre) npre"
    and rel_x: "?R (length pre, ?c, 0) x"
    unfolding items by (auto simp: list_all2_append1 list_all2_Cons1)
  from rel_x obtain n where x: "x = site_row ?pt n (length pre) ?c 0" by auto
  have x0: "r_distance x = ''0.000000''" by (simp add: x site_row_fields format_f_zero)
  from related_rows[OF rel] have
    dist: "map r_distance new = map (\<lambda>(i, s, d). format_f d) ?items"
    and ipots: "\<forall>r\<in>set new. \<exists>n. map_of (pot_dict self) (r_atom r) = Some n \<and> r_ipot r = n"
    by blast+
  have dist': "map r_distance new = map (\<lambda>(s, d). format_f d) ?sphere"
    unfolding dist by (rule map_enumerate_distance)
  have len_new: "length new = length ?sphere"
    using arg_cong[OF dist', of length] by simp
  have pos: "\<forall>r\<in>set new. 1 \<le> r_ipot r" using ipots vals by fastforce
  have least: "\<forall>r\<in>set new. ''0.000000'' \<le> r_distance r"
  proof
    fix r assume "r \<in> set new"
    then have "r_distance r \<in> set (map r_distance new)" by simp
    then have "r_distance r \<in> (\<lambda>(s, d). format_f d) ` set ?sphere"
      unfolding dist' by (simp only: set_map)
    then obtain s d where "(s, d) \<in> set ?sphere" "r_distance r = format_f d" by auto
    with known show "''0.000000'' \<le> r_distance r" by (auto intro: format_f_least)
  qed
  let ?rs = "sort_key r_distance new"
  have xin: "x \<in> set new" by (simp add: new)
  have ne: "?rs \<noteq> []" using xin by (metis empty_iff empty_set set_sort)
  then obtain y ys where rs: "?rs = y # ys" by (cases ?rs) auto
  have sub: "set (y # ys) = set new" using rs by (metis set_sort)
  have "r_distance (?rs ! 0) \<le> r_distance x" using xin by (rule sort_key_head_least)
  moreover have "''0.000000'' \<le> r_distance y" using least sub by auto
  ultimately have y0: "r_distance y = ''0.000000''" using x0 rs by simp
  have ys_pos: "\<forall>r\<in>set ys. 1 \<le> r_ipot r" using pos sub by auto
  let ?g = "\<lambda>(i, r). r\<lparr>r_number := i\<rparr>"
  let ?rows = "y\<lparr>r_ipot := 0, r_number := 0\<rparr> # map ?g (enumerate 1 ys)"
  have len_rs: "length ?sphere = Suc (length ys)"
    using len_new rs by (metis length_Cons length_sort)
  have "fold (\<lambda>i rs. rs[i := (rs ! i)\<lparr>r_number := i\<rparr>]) [0..<length ?sphere]
          (?rs[0 := (?rs ! 0)\<lparr>r_ipot := 0\<rparr>]) = map ?g (enumerate 0 (y\<lparr>r_ipot := 0\<rparr> # ys))"
    unfolding rs len_rs using renumber_all[of "y\<lparr>r_ipot := 0\<rparr> # ys"] by simp
  also have "\<dots> = ?rows" by simp
  finally have fin: "fold (\<lambda>i rs. rs[i := (rs ! i)\<lparr>r_number := i\<rparr>]) [0..<length ?sphere]
          (?rs[0 := (?rs ! 0)\<lparr>r_ipot := 0\<rparr>]) = ?rows" .
  have idx: "list_index (map specie_symbol (sites st)) central =
               Inr (length (takeWhile (\<lambda>y. y \<noteq> central) (map specie_symbol (sites st))))"
    using cen by (simp add: list_index_def)
  have table: "atoms_table get_sites_in_sphere st central radius = Inr ?rows"
    using built ne fin
    by (simp add: atoms_table_def init get_string_rows_def st ca idx Let_def
          center_point_def[symmetric] sph del: sort_key_simps)
  have "filter (\<lambda>r. r_ipot r = 0) (map ?g (enumerate 1 ys)) = []"
    using ys_pos by (auto simp: filter_empty_conv dest!: enumerate_member)
  then have one: "length (filter (\<lambda>r. r_ipot r = 0) ?rows) = 1" by simp
  have "map r_number ?rows = 0 # [1..<1 + length ys]"
    by (simp only: list.map renumbered_numbers) simp
  also have "\<dots> = [0..<length ?rows]" by (simp add: upt_conv_Cons del: upt_Suc)
  finally have num: "map r_number ?rows = [0..<length ?rows]" .
  have len: "length ?rows = length pre + 1 + length post" using len_rs by simp
  have ip0: "r_ipot (?rows ! 0) = 0" by simp
  have d0: "r_distance (?rows ! 0) = ''0.000000''" using y0 by simp
  have "map r_distance ?rows = map r_distance (y # ys)"
    by (simp only: list.map renumbered_distances) simp
  also have "\<dots> = sort (map r_distance new)"
    unfolding rs[symmetric] by (rule map_sort_key)
  finally have "map r_distance ?rows = sort (map (\<lambda>(s, d). format_f d) ?sphere)"
    unfolding dist' .
  then have srt: "sort (map r_distance ?rows) = sort (map (\<lambda>(s, d). format_f d) ?sphere)"
    by (simp add: sorted_sort_id)
  have centre: "?rows ! 0 = site_row ?pt 0 0 ?c 0"
    if first: "\<forall>(s, d)\<in>set pre. format_f d \<noteq> ''0.000000''"
  proof -
    from related_rows[OF rel_pre] have
      "map r_distance npre = map (\<lambda>(i, s, d). format_f d) (enumerate 0 pre)" by blast
    then have dp: "map r_distance npre = map (\<lambda>(s, d). format_f d) pre"
      by (simp only: map_enumerate_distance)
    have "\<forall>r\<in>set npre. r_distance r \<noteq> r_distance x"
    proof
      fix r assume "r \<in> set npre"
      then have "r_distance r \<in> set (map r_distance npre)" by simp
      then have "r_distance r \<in> (\<lambda>(s, d). format_f d) ` set pre"
        unfolding dp by (simp only: set_map)
      with first show "r_distance r \<noteq> r_distance x" unfolding x0 by auto
    qed
    moreover have "\<forall>r\<in>set (npre @ x # npost). r_distance x \<le> r_distance r"
      using least unfolding new x0 .
    ultimately have "sort_key r_distance (npre @ x # npost) ! 0 = x"
      by (intro sort_key_head_stable) auto
    then have "y = x" using rs by (simp add: new)
    then show ?thesis by (simp add: x site_row_update)
  qed
  from table len ip0 d0 one num srt centre show ?thesis by blast
qed

lemma format_f_values:
  "format_f 1 = ''1.000000''" "format_f 2 = ''2.000000''" "format_f 10 = ''10.000000''"
  "format_f (- 10) = ''-10.000000''"
  by (simp_all add: format_defs)

lemma format_f_tiny: "format_f (1 / 2500000) = ''0.000000''"
proof -
  have "\<lfloor>2 / 5 :: rat\<rfloor> = 0" by (simp add: floor_eq_iff)
  then show ?thesis by (simp add: format_defs)
qed

lemmas table_defs = atoms_table_def FeffAtoms_init_def get_string_rows_def list_index_def
  unique_pot_atoms_def re_sub_nonalpha_def sphere_of_def Co_at_def O_at_def CoO2_def Let_def

theorem shell_table_invariant_witness:
  "list_all (\<lambda>(s, d). format_f d \<noteq> ''0.000000'') [(O_at (1, 0, 0), 1 :: rat)] \<and>
   (\<exists>rows. atoms_table (sphere_of [(O_at (1, 0, 0), 1), (Co_at (0, 0, 0), 0), (O_at (0, 2, 0), 2)])
              (CoO2 (0, 0, 0) (1, 0, 0) (0, 2, 0)) ''Co'' (5 / 2) = Inr rows \<and>
           length rows = 3 \<and>
           r_ipot (rows ! 0) = 0 \<and> r_distance (rows ! 0) = ''0.000000'' \<and>
           length (filter (\<lambda>r. r_ipot r = 0) rows) = 1 \<and>
           map r_number rows = [0..<length rows] \<and>
           sort (map r_distance rows) = [''0.000000'', ''1.000000'', ''2.000000''] \<and>
           rows ! 0 = \<lparr>r_x = ''0.000000'', r_y = ''0.000000'', r_z = ''0.000000'', r_ipot = 0,
                        r_atom = ''Co'', r_distance = ''0.000000'', r_number = 0\<rparr>)"
proof -
  let ?search = "sphere_of [(O_at (1, 0, 0), 1), (Co_at (0, 0, 0), 0), (O_at (0, 2, 0), 2)]"
  let ?st = "CoO2 (0, 0, 0) (1, 0, 0) (0, 2, 0)"
  let ?pre = "[(O_at (1, 0, 0), 1 :: rat)]"
  let ?post = "[(O_at (0, 2, 0), 2 :: rat)]"
  have c: "center_site ?st ''Co'' = Co_at (0, 0, 0)"
    by (simp add: center_site_def CoO2_def Co_at_def O_at_def)
  have pt: "center_point ?st ''Co'' = (0, 0, 0)"
    by (simp add: center_point_site c Co_at_def)
  have ord: "is_ordered ?st" by (simp add: CoO2_def)
  have cen: "''Co'' \<in> set (map specie_symbol (sites ?st))"
    by (simp add: CoO2_def Co_at_def)
  have sph: "?search ?st (center_point ?st ''Co'') (5 / 2) = ?pre @ (center_site ?st ''Co'', 0) # ?post"
    unfolding c by (simp add: sphere_of_def)
  have known: "\<forall>(s, d)\<in>set (?pre @ (center_site ?st ''Co'', 0) # ?post).
      0 \<le> d \<and> re_sub_nonalpha (species_string s) \<in> set (map specie_symbol (sites ?st))"
    unfolding c by (simp add: CoO2_def Co_at_def O_at_def re_sub_nonalpha_def)
  have first: "\<forall>(s, d)\<in>set ?pre. format_f d \<noteq> ''0.000000''"
    by (simp add: format_f_values)
  have row: "site_row (0, 0, 0) 0 0 (Co_at (0, 0, 0)) 0 =
      \<lparr>r_x = ''0.000000'', r_y = ''0.000000'', r_z = ''0.000000'', r_ipot = 0,
       r_atom = ''Co'', r_distance = ''0.000000'', r_number = 0\<rparr>"
    by (simp add: site_row_def Co_at_def re_sub_nonalpha_def format_f_zero)
  from shell_table_invariant[where get_sites_in_sphere = ?search and st = ?st
        and central = "''Co''" and radius = "5 / 2" and pre = ?pre and post = ?post,
        OF ord cen sph known] first
  obtain rows where
    "atoms_table ?search ?st ''Co'' (5 / 2) = Inr rows"
    "length rows = length ?pre + 1 + length ?post"
    "r_ipot (rows ! 0) = 0" "r_distance (rows ! 0) = ''0.000000''"
    "length (filter (\<lambda>r. r_ipot r = 0) rows) = 1"
    "map r_number rows = [0..<length rows]"
    "sort (map r_distance rows) =
       sort (map (\<lambda>(s, d). format_f d) (?pre @ (center_site ?st ''Co'', 0) # ?post))"
    "rows ! 0 = site_row (center_point ?st ''Co'') 0 0 (center_site ?st ''Co'') 0"
    by blast
  then have "atoms_table ?search ?st ''Co'' (5 / 2) = Inr rows \<and>
           length rows = 3 \<and>
           r_ipot (rows ! 0) = 0 \<and> r_distance (rows ! 0) = ''0.000000'' \<and>
           length (filter (\<lambda>r. r_ipot r = 0) rows) = 1 \<and>
           map r_number rows = [0..<length rows] \<and>
           sort (map r_distance rows) = [''0.000000'', ''1.000000'', ''2.000000''] \<and>
           rows ! 0 = \<lparr>r_x = ''0.000000'', r_y = ''0.000000'', r_z = ''0.000000'', r_ipot = 0,
                        r_atom = ''Co'', r_distance = ''0.000000'', r_number = 0\<rparr>"
    unfolding c pt row by (simp add: format_f_zero format_f_values)
  moreover have "list_all (\<lambda>(s, d). format_f d \<noteq> ''0.000000'') ?pre"
    by (simp add: format_f_values)
  ultimately show ?thesis by blast
qed

text \<open>
  C1, as stated, fails: row 0 need not be the centre. With an oxygen site 0.0000004 from
  the cobalt centre, listed first by the neighbour search, both distances print as
  0.000000, the stable sort keeps the oxygen first, and row 0 is the oxygen with potential
  index 0 while the centre keeps its index 1.
\<close>

theorem shell_table_invariant_counterexample:
  "atoms_table (sphere_of [(O_at (1 / 2500000, 0, 0), 1 / 2500000), (Co_at (0, 0, 0), 0)])
     (CoO2 (0, 0, 0) (1 / 2500000, 0, 0) (0, 2, 0)) ''Co'' 1 =
   Inr [\<lparr>r_x = ''0.000000'', r_y = ''0.000000'', r_z = ''0.000000'',
         r_ipot = 0, r_atom = ''O'', r_distance = ''0.000000'', r_number = 0\<rparr>,
        \<lparr>r_x = ''0.000000'', r_y = ''0.000000'', r_z = ''0.000000'',
         r_ipot = 1, r_atom = ''Co'', r_distance = ''0.000000'', r_number = 1\<rparr>]"
  by (simp add: table_defs format_f_zero format_f_tiny)
subsection \<open>The three-site example\<close>

lemma three_orders:
  assumes "distinct xs" and "set xs = {a, b, c}" and "a \<noteq> b" and "a \<noteq> c" and "b \<noteq> c"
  shows "xs = [a, b, c] \<or> xs = [a, c, b] \<or> xs = [b, a, c] \<or> xs = [b, c, a] \<or>
         xs = [c, a, b] \<or> xs = [c, b, a]"
proof -
  have "length xs = 3" using distinct_card[OF assms(1)] assms(2-) by simp
  then obtain x y z where xs: "xs = [x, y, z]"
    by (auto simp: length_Suc_conv numeral_3_eq_3)
  from assms(2) have "x \<in> {a, b, c}" "y \<in> {a, b, c}" "z \<in> {a, b, c}"
    unfolding xs by auto
  moreover from assms(1) have "x \<noteq> y" "x \<noteq> z" "y \<noteq> z" unfolding xs by auto
  ultimately show ?thesis unfolding xs by auto
qed

text \<open>
  C5, as amended. For the structure of a cobalt site and two oxygen sites, and a neighbour
  search that answers, in any order, the cobalt at distance 0 and the oxygens at distances
  1 and 2, the table for central atom Co and radius 2.5 has three rows in the order of
  their distances, with species Co, O, O and potential indices 0, 2, 2: the potential
  dictionary numbers Co 1 and O 2, and only row 0 is set to 0.
\<close>

theorem three_site_table:
  assumes "distinct (get_sites_in_sphere (CoO2 pc p1 p2) pc (5 / 2))"
    and "set (get_sites_in_sphere (CoO2 pc p1 p2) pc (5 / 2)) =
           {(Co_at pc, 0), (O_at p1, 1), (O_at p2, 2)}"
  shows "\<exists>rows. atoms_table get_sites_in_sphere (CoO2 pc p1 p2) ''Co'' (5 / 2) = Inr rows \<and>
           length rows = 3 \<and>
           map r_atom rows = [''Co'', ''O'', ''O''] \<and>
           map r_ipot rows = [0, 2, 2] \<and>
           map r_distance rows = [''0.000000'', ''1.000000'', ''2.000000''] \<and>
           map r_number rows = [0, 1, 2]"
proof -
  obtain xc yc zc where pc: "pc = (xc, yc, zc)" by (cases pc)
  obtain x1 y1 z1 where p1: "p1 = (x1, y1, z1)" by (cases p1)
  obtain x2 y2 z2 where p2: "p2 = (x2, y2, z2)" by (cases p2)
  let ?xs = "get_sites_in_sphere (CoO2 pc p1 p2) pc (5 / 2)"
  have "?xs = [(Co_at pc, 0), (O_at p1, 1), (O_at p2, 2)] \<or>
        ?xs = [(Co_at pc, 0), (O_at p2, 2), (O_at p1, 1)] \<or>
        ?xs = [(O_at p1, 1), (Co_at pc, 0), (O_at p2, 2)] \<or>
        ?xs = [(O_at p1, 1), (O_at p2, 2), (Co_at pc, 0)] \<or>
        ?xs = [(O_at p2, 2), (Co_at pc, 0), (O_at p1, 1)] \<or>
        ?xs = [(O_at p2, 2), (O_at p1, 1), (Co_at pc, 0)]"
    by (rule three_orders[OF assms]) simp_all
  then have "atoms_table get_sites_in_sphere (CoO2 pc p1 p2) ''Co'' (5 / 2) =
      Inr [\<lparr>r_x = format_f (xc - xc), r_y = format_f (yc - yc), r_z = format_f (zc - zc),
            r_ipot = 0, r_atom = ''Co'', r_distance = ''0.000000'', r_number = 0\<rparr>,
           \<lparr>r_x = format_f (x1 - xc), r_y = format_f (y1 - yc), r_z = format_f (z1 - zc),
            r_ipot = 2, r_atom = ''O'', r_distance = ''1.000000'', r_number = 1\<rparr>,
           \<lparr>r_x = format_f (x2 - xc), r_y = format_f (y2 - yc), r_z = format_f (z2 - zc),
            r_ipot = 2, r_atom = ''O'', r_distance = ''2.000000'', r_number = 2\<rparr>]"
    by (elim disjE) (simp_all add: table_defs format_f_zero format_f_values pc p1 p2)
  then show ?thesis by simp
qed

theorem three_site_table_witness:
  "distinct (sphere_of [(O_at (0, 2, 0), 2), (Co_at (0, 0, 0), 0), (O_at (1, 0, 0), 1)]
               (CoO2 (0, 0, 0) (1, 0, 0) (0, 2, 0)) (0, 0, 0) (5 / 2)) \<and>
   (\<exists>rows. atoms_table (sphere_of [(O_at (0, 2, 0), 2), (Co_at (0, 0, 0), 0), (O_at (1, 0, 0), 1)])
              (CoO2 (0, 0, 0) (1, 0, 0) (0, 2, 0)) ''Co'' (5 / 2) = Inr rows \<and>
           length rows = 3 \<and>
           map r_atom rows = [''Co'', ''O'', ''O''] \<and>
           map r_ipot rows = [0, 2, 2] \<and>
           map r_distance rows = [''0.000000'', ''1.000000'', ''2.000000''] \<and>
           map r_number rows = [0, 1, 2])"
proof -
  let ?search = "sphere_of [(O_at (0, 2, 0), 2), (Co_at (0, 0, 0), 0), (O_at (1, 0, 0), 1)]"
  let ?st = "CoO2 (0, 0, 0) (1, 0, 0) (0, 2, 0)"
  have a: "distinct (?search ?st (0, 0, 0) (5 / 2))"
    by (simp add: sphere_of_def Co_at_def O_at_def)
  have b: "set (?search ?st (0, 0, 0) (5 / 2)) =
             {(Co_at (0, 0, 0), 0), (O_at (1, 0, 0), 1), (O_at (0, 2, 0), 2)}"
    by (auto simp: sphere_of_def)
  from three_site_table[where get_sites_in_sphere = ?search and pc = "(0, 0, 0)"
        and ?p1.0 = "(1, 0, 0)" and ?p2.0 = "(0, 2, 0)", OF a b] a
  show ?thesis by blast
qed

text \<open>C5, as stated, fails: the potential indices of the example are not 0, 1, 1.\<close>

theorem three_site_table_counterexample:
  "map_sum id (map r_ipot)
     (atoms_table (sphere_of [(Co_at (0, 0, 0), 0), (O_at (1, 0, 0), 1), (O_at (0, 2, 0), 2)])
        (CoO2 (0, 0, 0) (1, 0, 0) (0, 2, 0)) ''Co'' (5 / 2)) \<noteq> Inr [0, 1, 1]"
  by (simp add: table_defs format_f_zero format_f_values)

subsection \<open>Rows at ten and more\<close>

text \<open>
  C2 does not hold of the code. The sort key is column 5, the distance as formatted text,
  so rows are ordered as strings: with oxygen sites at distances 2 and 10 and radius 11,
  the row at 10.000000 comes before the row at 2.000000.
\<close>

theorem far_site_table:
  "atoms_table (sphere_of [(Co_at (0, 0, 0), 0), (O_at (2, 0, 0), 2), (O_at (0, 0, - 10), 10)])
     (CoO2 (0, 0, 0) (2, 0, 0) (0, 0, - 10)) ''Co'' 11 =
   Inr [\<lparr>r_x = ''0.000000'', r_y = ''0.000000'', r_z = ''0.000000'',
         r_ipot = 0, r_atom = ''Co'', r_distance = ''0.000000'', r_number = 0\<rparr>,
        \<lparr>r_x = ''0.000000'', r_y = ''0.000000'', r_z = ''-10.000000'',
         r_ipot = 2, r_atom = ''O'', r_distance = ''10.000000'', r_number = 1\<rparr>,
        \<lparr>r_x = ''2.000000'', r_y = ''0.000000'', r_z = ''0.000000'',
         r_ipot = 2, r_atom = ''O'', r_distance = ''2.000000'', r_number = 2\<rparr>]"
  by (simp add: table_defs format_f_zero format_f_values)

end
